theory Spec2Isabelle
  imports Main "HOL-Library.Word"
begin

unbundle bit_operations_syntax

section \<open>The DS1343 real-time clock driver (sierralobo_ds134x.py)\<close>

text \<open>
  Python integers are modelled as \<open>int\<close> (unbounded; \<open>//\<close> and \<open>%\<close> round towards
  minus infinity, as \<open>div\<close> and \<open>mod\<close> do; \<open>&\<close>, \<open>|\<close>, \<open><<\<close>, \<open>>>\<close> are the
  two's-complement operations \<open>AND\<close>, \<open>OR\<close>, \<open>push_bit\<close>, \<open>drop_bit\<close>). The elements
  of a \<open>bytearray\<close> and the chip's registers are bytes, \<open>8 word\<close>.
\<close>

type_synonym u8 = "8 word"

subsection \<open>The BCD codec\<close>

text \<open>
  \<^verbatim>\<open>
  def _bcd_to_int(val: int) -> int:
      tens = (val & 0xF0) >> 4
      ones = val & 0x0F
      return (tens * 10) + ones
  \<close>
\<close>

definition bcd_to_int :: "int \<Rightarrow> int" where
  "bcd_to_int val =
     (let tens = drop_bit 4 (val AND 0xF0);
          ones = val AND 0x0F
      in (tens * 10) + ones)"

text \<open>
  \<^verbatim>\<open>
  def _int_to_bcd(val: int) -> int:
      if not isinstance(val, int):
          val = int(val)
      thou = val // 1000
      hund = val // 100
      tens = val // 10
      ones = val % 10
      return (
          ((thou & 0x0F) << 0x12)
          | ((hund & 0x0F) << 0x8)
          | ((tens & 0x0F) << 0x4)
          | (ones & 0x0F)
      )
  \<close>
  The argument is an \<open>int\<close> at every call of the driver, so the conversion of the first
  two lines is the identity. The shift amounts are the source's: \<open>0x12\<close> is eighteen.
\<close>

definition int_to_bcd :: "int \<Rightarrow> int" where
  "int_to_bcd val =
     (let thou = val div 1000;
          hund = val div 100;
          tens = val div 10;
          ones = val mod 10
      in push_bit 0x12 (thou AND 0x0F)
         OR push_bit 0x8 (hund AND 0x0F)
         OR push_bit 0x4 (tens AND 0x0F)
         OR (ones AND 0x0F))"

text \<open>
  The packing that the specification describes for \<open>int_to_bcd\<close>, written from its words:
  the thousands, hundreds, tens and ones digits at bit offsets 12, 8, 4 and 0.
\<close>

definition packed_digits_spec :: "int \<Rightarrow> int" where
  "packed_digits_spec v =
     push_bit 12 (v div 1000 mod 10)
     OR push_bit 8 (v div 100 mod 10)
     OR push_bit 4 (v div 10 mod 10)
     OR (v mod 10)"

subsection \<open>Calendar time and the values passed to the setter\<close>

text \<open>
  \<open>time.struct_time\<close>, with the nine fields in the order of its constructor's list.
\<close>

record struct_time =
  tm_year :: int
  tm_mon :: int
  tm_mday :: int
  tm_hour :: int
  tm_min :: int
  tm_sec :: int
  tm_wday :: int
  tm_yday :: int
  tm_isdst :: int

text \<open>
  The objects that reach the setter's type test: a \<open>struct_time\<close>, an integer, and the
  builtin type \<open>set\<close>, which is what the name \<open>set\<close> denotes inside the setter (its
  parameter is called \<open>set_time\<close>).
\<close>

datatype pyobj = StructTime struct_time | PyInt int | BuiltinSetType

datatype error = TypeError | AttributeError | IndexError | OverflowError | OSError int

definition isinstance_struct_time :: "pyobj \<Rightarrow> bool" where
  "isinstance_struct_time x = (case x of StructTime _ \<Rightarrow> True | _ \<Rightarrow> False)"

text \<open>Reading the \<open>tm_*\<close> attributes off an object: only a \<open>struct_time\<close> has them.\<close>

definition as_struct_time :: "pyobj \<Rightarrow> error + struct_time" where
  "as_struct_time x = (case x of StructTime t \<Rightarrow> Inr t | _ \<Rightarrow> Inl AttributeError)"

text \<open>
  \<open>time.localtime\<close> belongs to the host, not to the driver: the setter takes it as a
  parameter of type \<open>pyobj \<Rightarrow> error + struct_time\<close>. The host's function accepts a
  number of seconds and raises \<open>TypeError\<close> on any other object, a \<open>struct_time\<close>
  included. What it does with a number is the host's calendar conversion \<open>conv\<close>, which
  is left open: it may return any calendar time and may raise (\<open>OverflowError\<close> or
  \<open>OSError\<close> on seconds out of range). The setter does nothing with its argument but
  hand it to \<open>localtime\<close>, so a float argument is covered by the integer the host
  truncates it to.
\<close>

definition localtime_of :: "(int \<Rightarrow> error + struct_time) \<Rightarrow> pyobj \<Rightarrow> error + struct_time" where
  "localtime_of conv x = (case x of PyInt n \<Rightarrow> conv n | _ \<Rightarrow> Inl TypeError)"

subsection \<open>The chip, the bus and the driver's buffer\<close>

text \<open>
  What happens on the wire is recorded as a trace of events: chip select asserted and
  released, bytes transmitted, bytes received.
\<close>

datatype event = Select | Deselect | Tx "u8 list" | Rx "u8 list"

datatype direction = Reading | Writing

text \<open>
  The state the driver runs against.
  \<^item> \<open>regs\<close>: the chip's registers by 7-bit address; \<open>ptr\<close>: the chip's register pointer
    inside a chip-select session (\<open>None\<close> until the address byte has arrived).
  \<^item> \<open>selected\<close>: the bus session is held; \<open>trace\<close>: the events so far.
  \<^item> \<open>faults\<close>: the outcome of the coming bus transfers, one entry per call of
    \<open>device.write\<close> or \<open>device.readinto\<close>: \<open>Some e\<close> makes the call raise \<open>e\<close>; an
    exhausted schedule means no further fault.
  \<^item> \<open>BUFFER\<close>: the module's \<open>_BUFFER = bytearray(8)\<close>; \<open>caller_buf\<close>: a buffer owned by
    the caller of \<open>_read_into\<close> or \<open>_write_from\<close>.
\<close>

record machine =
  regs :: "nat \<Rightarrow> u8"
  ptr :: "(direction \<times> nat) option"
  selected :: bool
  trace :: "event list"
  faults :: "error option list"
  BUFFER :: "u8 list"
  caller_buf :: "u8 list"

datatype bufref = GlobalBuffer | CallerBuffer

definition get_buf :: "bufref \<Rightarrow> machine \<Rightarrow> u8 list" where
  "get_buf r s = (case r of GlobalBuffer \<Rightarrow> BUFFER s | CallerBuffer \<Rightarrow> caller_buf s)"

definition set_buf :: "bufref \<Rightarrow> u8 list \<Rightarrow> machine \<Rightarrow> machine" where
  "set_buf r v s = (case r of GlobalBuffer \<Rightarrow> s\<lparr>BUFFER := v\<rparr> | CallerBuffer \<Rightarrow> s\<lparr>caller_buf := v\<rparr>)"

text \<open>
  One byte exchanged with the selected chip (the bus is full duplex). The first byte of a
  session is the command: bit 7 is the direction, the low seven bits the register address.
  After it, a byte sent in a write session is stored at the pointer, a byte clocked in a
  read session is the register at the pointer; the pointer increments.
\<close>

definition clock_byte :: "u8 \<Rightarrow> machine \<Rightarrow> u8 \<times> machine" where
  "clock_byte mosi s =
     (case ptr s of
        None \<Rightarrow>
          (0, s\<lparr>ptr := Some (if bit mosi 7 then Writing else Reading, unat (mosi AND 0x7F))\<rparr>)
      | Some (Writing, a) \<Rightarrow>
          (0, s\<lparr>regs := (regs s)(a := mosi), ptr := Some (Writing, (a + 1) mod 128)\<rparr>)
      | Some (Reading, a) \<Rightarrow>
          (regs s a, s\<lparr>ptr := Some (Reading, (a + 1) mod 128)\<rparr>))"

fun clock_out :: "u8 list \<Rightarrow> machine \<Rightarrow> machine" where
  "clock_out [] s = s"
| "clock_out (b # bs) s = clock_out bs (snd (clock_byte b s))"

fun clock_in :: "nat \<Rightarrow> machine \<Rightarrow> u8 list \<times> machine" where
  "clock_in 0 s = ([], s)"
| "clock_in (Suc n) s =
     (case clock_byte 0 s of (b, s1) \<Rightarrow>
        (case clock_in n s1 of (bs, s2) \<Rightarrow> (b # bs, s2)))"

subsection \<open>Operations that may raise\<close>

type_synonym 'a io = "machine \<Rightarrow> (error + 'a) \<times> machine"

definition return_io :: "'a \<Rightarrow> 'a io" where
  "return_io x s = (Inr x, s)"

definition bind_io :: "'a io \<Rightarrow> ('a \<Rightarrow> 'b io) \<Rightarrow> 'b io" where
  "bind_io m f s = (case m s of (Inl e, s1) \<Rightarrow> (Inl e, s1) | (Inr x, s1) \<Rightarrow> f x s1)"

definition lift_io :: "error + 'a \<Rightarrow> 'a io" where
  "lift_io r s = (r, s)"

text \<open>The next entry of the fault schedule.\<close>

definition next_fault :: "machine \<Rightarrow> error option \<times> machine" where
  "next_fault s = (case faults s of [] \<Rightarrow> (None, s) | f # fs \<Rightarrow> (f, s\<lparr>faults := fs\<rparr>))"

text \<open>
  \<open>device.write(buf, end=n)\<close> sends \<open>buf[0:n]\<close>; \<open>device.readinto(buf, end=n)\<close> clocks
  \<open>n\<close> bytes in (sending zeros) and stores them in \<open>buf[0:n]\<close>, \<open>n\<close> cut at the length
  of the buffer as a slice bound is. A faulting transfer raises and moves nothing.
\<close>

definition device_write :: "u8 list \<Rightarrow> unit io" where
  "device_write bytes s =
     (case next_fault s of
        (Some e, s1) \<Rightarrow> (Inl e, s1)
      | (None, s1) \<Rightarrow>
          (let s2 = clock_out bytes s1
           in (Inr (), s2\<lparr>trace := trace s2 @ [Tx bytes]\<rparr>)))"

definition device_readinto :: "bufref \<Rightarrow> nat \<Rightarrow> unit io" where
  "device_readinto buf n s =
     (case next_fault s of
        (Some e, s1) \<Rightarrow> (Inl e, s1)
      | (None, s1) \<Rightarrow>
          (let m = min n (length (get_buf buf s1))
           in case clock_in m s1 of (bs, s2) \<Rightarrow>
                (Inr (), set_buf buf (bs @ drop m (get_buf buf s2))
                           (s2\<lparr>trace := trace s2 @ [Rx bs]\<rparr>))))"

text \<open>
  \<open>with self._device as device:\<close> asserts chip select (which starts a new command on the
  chip), runs the body, and releases chip select when the body returns and when it raises;
  the exception then continues to the caller.
\<close>

definition enter_device :: "machine \<Rightarrow> machine" where
  "enter_device s = s\<lparr>selected := True, ptr := None, trace := trace s @ [Select]\<rparr>"

definition exit_device :: "machine \<Rightarrow> machine" where
  "exit_device s = s\<lparr>selected := False, trace := trace s @ [Deselect]\<rparr>"

definition with_device :: "'a io \<Rightarrow> 'a io" where
  "with_device body s = (case body (enter_device s) of (r, s1) \<Rightarrow> (r, exit_device s1))"

text \<open>\<open>_BUFFER[i] = v\<close> and \<open>_BUFFER[i]\<close>: out of range is \<open>IndexError\<close>.\<close>

definition setitem_BUFFER :: "nat \<Rightarrow> u8 \<Rightarrow> unit io" where
  "setitem_BUFFER i v s =
     (if i < length (BUFFER s) then (Inr (), s\<lparr>BUFFER := (BUFFER s)[i := v]\<rparr>)
      else (Inl IndexError, s))"

definition getitem_BUFFER :: "nat \<Rightarrow> u8 io" where
  "getitem_BUFFER i s =
     (if i < length (BUFFER s) then (Inr (BUFFER s ! i), s) else (Inl IndexError, s))"

text \<open>An integer already masked to eight bits, as a byte.\<close>

definition byte :: "int \<Rightarrow> u8" where
  "byte v = word_of_int v"

subsection \<open>Register transport\<close>

text \<open>
  \<^verbatim>\<open>
  def _read_into(self, address, buf, length=None):
      if length is None:
          length = len(buf)
      with self._device as device:
          _BUFFER[0] = address & 0x7F
          device.write(_BUFFER, end=1)
          device.readinto(buf, end=length)
  \<close>
\<close>

definition read_into :: "int \<Rightarrow> bufref \<Rightarrow> nat option \<Rightarrow> unit io" where
  "read_into address buf length_opt s =
     (let len = (case length_opt of None \<Rightarrow> length (get_buf buf s) | Some n \<Rightarrow> n)
      in with_device
           (bind_io (setitem_BUFFER 0 (byte (address AND 0x7F))) (\<lambda>_.
            bind_io (\<lambda>s1. device_write (take 1 (BUFFER s1)) s1) (\<lambda>_.
            device_readinto buf len))) s)"

text \<open>
  \<^verbatim>\<open>
  def _read_u8(self, address):
      self._read_into(address, _BUFFER, length=1)
      return _BUFFER[0]
  \<close>
\<close>

definition read_u8 :: "int \<Rightarrow> int io" where
  "read_u8 address =
     bind_io (read_into address GlobalBuffer (Some 1)) (\<lambda>_.
     bind_io (getitem_BUFFER 0) (\<lambda>b. return_io (uint b)))"

text \<open>
  \<^verbatim>\<open>
  def _write_from(self, address, buf, length=None):
      if length is None:
          length = len(buf)
      with self._device as device:
          _BUFFER[0] = (address | 0x80) & 0xFF
          device.write(_BUFFER, end=1)
          device.write(buf, end=length)
  \<close>
\<close>

definition write_from :: "int \<Rightarrow> bufref \<Rightarrow> nat option \<Rightarrow> unit io" where
  "write_from address buf length_opt s =
     (let len = (case length_opt of None \<Rightarrow> length (get_buf buf s) | Some n \<Rightarrow> n)
      in with_device
           (bind_io (setitem_BUFFER 0 (byte ((address OR 0x80) AND 0xFF))) (\<lambda>_.
            bind_io (\<lambda>s1. device_write (take 1 (BUFFER s1)) s1) (\<lambda>_.
            (\<lambda>s2. device_write (take len (get_buf buf s2)) s2)))) s)"

text \<open>
  \<^verbatim>\<open>
  def _write_u8(self, address, val):
      with self._device as device:
          _BUFFER[0] = (address | 0x80) & 0xFF
          _BUFFER[1] = val & 0xFF
          device.write(_BUFFER, end=2)
  \<close>
\<close>

definition write_u8 :: "int \<Rightarrow> int \<Rightarrow> unit io" where
  "write_u8 address val =
     with_device
       (bind_io (setitem_BUFFER 0 (byte ((address OR 0x80) AND 0xFF))) (\<lambda>_.
        bind_io (setitem_BUFFER 1 (byte (val AND 0xFF))) (\<lambda>_.
        (\<lambda>s1. device_write (take 2 (BUFFER s1)) s1))))"

subsection \<open>The device facade\<close>

text \<open>
  \<^verbatim>\<open>
  @property
  def datetime(self) -> struct_time:
      self._read_into(_S_REG, _BUFFER, 7)
      tsec = _bcd_to_int(_BUFFER[0])
      tmin = _bcd_to_int(_BUFFER[1])
      thr = _bcd_to_int(_BUFFER[2])
      dwd = _BUFFER[3] & 0x7
      dmd = _bcd_to_int(_BUFFER[4])
      dym = _bcd_to_int(_BUFFER[5])
      y = _bcd_to_int(_BUFFER[6]) + 2000
      return struct_time([y, dym, dmd, thr, tmin, tsec, dwd, -1, -1])
  \<close>
  with \<open>_S_REG = const(0x0)\<close>.
\<close>

definition S_REG :: int where
  "S_REG = 0x0"

definition datetime_getter :: "struct_time io" where
  "datetime_getter =
     bind_io (read_into S_REG GlobalBuffer (Some 7)) (\<lambda>_.
     bind_io (getitem_BUFFER 0) (\<lambda>b0.
     bind_io (getitem_BUFFER 1) (\<lambda>b1.
     bind_io (getitem_BUFFER 2) (\<lambda>b2.
     bind_io (getitem_BUFFER 3) (\<lambda>b3.
     bind_io (getitem_BUFFER 4) (\<lambda>b4.
     bind_io (getitem_BUFFER 5) (\<lambda>b5.
     bind_io (getitem_BUFFER 6) (\<lambda>b6.
       (let tsec = bcd_to_int (uint b0);
            tmin = bcd_to_int (uint b1);
            thr = bcd_to_int (uint b2);
            dwd = uint b3 AND 0x7;
            dmd = bcd_to_int (uint b4);
            dym = bcd_to_int (uint b5);
            y = bcd_to_int (uint b6) + 2000
        in return_io \<lparr>tm_year = y, tm_mon = dym, tm_mday = dmd, tm_hour = thr,
                       tm_min = tmin, tm_sec = tsec, tm_wday = dwd,
                       tm_yday = - 1, tm_isdst = - 1\<rparr>)))))))))"

text \<open>
  \<^verbatim>\<open>
  @datetime.setter
  def datetime(self, set_time: Union[struct_time, int] = None) -> None:
      if set_time is not None:
          if isinstance(set, struct_time):
              time_struct = set_time
          else:
              time_struct = localtime(set_time)
      else:
          time_struct = localtime(0)
      tsec = _int_to_bcd(time_struct.tm_sec) & 0x7F
      self._write_u8(0x00, tsec)
      tmn = _int_to_bcd(time_struct.tm_min) & 0x7F
      self._write_u8(0x01, tmn)
      thr = _int_to_bcd(time_struct.tm_hour) & 0x3F
      self._write_u8(0x02, thr)
      dwd = time_struct.tm_wday & 0x3
      self._write_u8(0x03, dwd)
      dmd = _int_to_bcd(time_struct.tm_mday) & 0x3F
      self._write_u8(0x04, dmd)
      dym = _int_to_bcd(time_struct.tm_mon) & 0x1F
      self._write_u8(0x05, dym)
      y = _int_to_bcd(time_struct.tm_year - 2000) & 0xFF
      self._write_u8(0x06, y)
      stat = self._read_u8(0x10)
      self._write_u8(0x10, stat & 0x7F)
  \<close>
  The type test is applied to the object named \<open>set\<close>, the builtin type, as the source
  has it. \<open>resolve_time\<close> is the first part (up to \<open>time_struct\<close>), \<open>write_time\<close> the rest.
\<close>

definition resolve_time :: "(pyobj \<Rightarrow> error + struct_time) \<Rightarrow> pyobj option \<Rightarrow> error + struct_time" where
  "resolve_time localtime set_time =
     (case set_time of
        Some obj \<Rightarrow>
          (if isinstance_struct_time BuiltinSetType then as_struct_time obj
           else localtime obj)
      | None \<Rightarrow> localtime (PyInt 0))"

definition write_time :: "struct_time \<Rightarrow> unit io" where
  "write_time time_struct =
     bind_io (write_u8 0x00 (int_to_bcd (tm_sec time_struct) AND 0x7F)) (\<lambda>_.
     bind_io (write_u8 0x01 (int_to_bcd (tm_min time_struct) AND 0x7F)) (\<lambda>_.
     bind_io (write_u8 0x02 (int_to_bcd (tm_hour time_struct) AND 0x3F)) (\<lambda>_.
     bind_io (write_u8 0x03 (tm_wday time_struct AND 0x3)) (\<lambda>_.
     bind_io (write_u8 0x04 (int_to_bcd (tm_mday time_struct) AND 0x3F)) (\<lambda>_.
     bind_io (write_u8 0x05 (int_to_bcd (tm_mon time_struct) AND 0x1F)) (\<lambda>_.
     bind_io (write_u8 0x06 (int_to_bcd (tm_year time_struct - 2000) AND 0xFF)) (\<lambda>_.
     bind_io (read_u8 0x10) (\<lambda>stat.
     write_u8 0x10 (stat AND 0x7F)))))))))"

definition datetime_setter :: "(pyobj \<Rightarrow> error + struct_time) \<Rightarrow> pyobj option \<Rightarrow> unit io" where
  "datetime_setter localtime set_time =
     bind_io (lift_io (resolve_time localtime set_time)) write_time"

text \<open>
  \<^verbatim>\<open>
  @property
  def valid(self) -> bool:
      return not (self._read_u8(0x10) & 0x80) == 0x80
  \<close>
  \<open>not\<close> binds weaker than \<open>==\<close>.
\<close>

definition valid :: "bool io" where
  "valid = bind_io (read_u8 0x10) (\<lambda>b. return_io (\<not> ((b AND 0x80) = 0x80)))"

text \<open>
  A chip after power-on with cleared registers, a bus that never faults and the module's
  fresh \<open>bytearray(8)\<close>; and the calendar time of the specification's scenario.
\<close>

definition power_on :: machine where
  "power_on = \<lparr>regs = (\<lambda>_. 0), ptr = None, selected = False, trace = [], faults = [],
               BUFFER = [0, 0, 0, 0, 0, 0, 0, 0], caller_buf = []\<rparr>"

definition ct_2024_03_15 :: struct_time where
  "ct_2024_03_15 = \<lparr>tm_year = 2024, tm_mon = 3, tm_mday = 15, tm_hour = 13, tm_min = 5,
                    tm_sec = 30, tm_wday = 5, tm_yday = - 1, tm_isdst = - 1\<rparr>"

definition chip_2024 :: machine where
  "chip_2024 = power_on\<lparr>regs := (\<lambda>_. 0)(0 := 0x30, 1 := 0x05, 2 := 0x13, 3 := 0x05,
                                         4 := 0x15, 5 := 0x03, 6 := 0x24, 0x10 := 0x80)\<rparr>"

text \<open>A bus whose second transfer raises.\<close>

definition faulty_bus :: machine where
  "faulty_bus = power_on\<lparr>faults := [None, Some (OSError 5)]\<rparr>"

subsection \<open>Notions used to state the properties\<close>

text \<open>The events a call added to the trace, and the bytes transmitted in them.\<close>

definition new_events :: "machine \<Rightarrow> machine \<Rightarrow> event list" where
  "new_events s s' = drop (length (trace s)) (trace s')"

fun sent :: "event list \<Rightarrow> u8 list" where
  "sent [] = []"
| "sent (Tx bs # es) = bs @ sent es"
| "sent (e # es) = sent es"

definition transfer_only :: "event list \<Rightarrow> bool" where
  "transfer_only evs = list_all (\<lambda>e. e \<noteq> Select \<and> e \<noteq> Deselect) evs"

text \<open>An operation only ever appends transfers to the trace.\<close>

definition grows :: "'a io \<Rightarrow> bool" where
  "grows p = (\<forall>s. \<exists>evs. trace (snd (p s)) = trace s @ evs \<and> transfer_only evs)"

text \<open>The error, if any, that the bus raises within the next \<open>n\<close> transfers.\<close>

fun first_fault :: "nat \<Rightarrow> error option list \<Rightarrow> error option" where
  "first_fault 0 fs = None"
| "first_fault (Suc n) [] = None"
| "first_fault (Suc n) (Some e # fs) = Some e"
| "first_fault (Suc n) (None # fs) = first_fault n fs"

definition next_outcome :: "machine \<Rightarrow> error option" where
  "next_outcome s = (case faults s of [] \<Rightarrow> None | f # _ \<Rightarrow> f)"

section \<open>Properties\<close>

subsection \<open>Bytes and bits\<close>

lemma n7F: "(0x7F::int) = mask 7"
  by (simp add: mask_eq_exp_minus_1)

lemma nFF: "(0xFF::int) = mask 8"
  by (simp add: mask_eq_exp_minus_1)

lemma w7F: "(0x7F::u8) = mask 7"
  by (simp add: mask_eq_exp_minus_1)

lemma bit_128: "bit (128::int) n \<longleftrightarrow> n = 7"
  using bit_exp_iff [where ?'a = int, of 7 n] by simp

lemma uint_byte: "uint (byte v) = take_bit 8 v"
  by (simp add: byte_def uint_word_of_int take_bit_eq_mod)

lemma bit_cmd_write: "bit (byte ((a OR 0x80) AND 0xFF)) 7"
  unfolding byte_def nFF
  by (simp add: bit_word_of_int_iff bit_and_iff bit_or_iff bit_mask_iff bit_128)

lemma bit_cmd_read: "\<not> bit (byte (a AND 0x7F)) 7"
  unfolding byte_def n7F
  by (simp add: bit_word_of_int_iff bit_and_iff bit_mask_iff)

lemma addr_cmd_write: "uint (byte ((a OR 0x80) AND 0xFF) AND 0x7F) = a AND 0x7F"
  unfolding byte_def nFF n7F w7F
  by (rule bit_eqI)
    (auto simp add: bit_uint_iff bit_and_iff bit_or_iff bit_mask_iff bit_128 bit_word_of_int_iff)

lemma addr_cmd_read: "uint (byte (a AND 0x7F) AND 0x7F) = a AND 0x7F"
  unfolding byte_def n7F w7F
  by (rule bit_eqI)
    (auto simp add: bit_uint_iff bit_and_iff bit_mask_iff bit_word_of_int_iff)

lemma unat_addr_write: "unat (byte ((a OR 0x80) AND 0xFF) AND 0x7F) = nat (a AND 0x7F)"
  by (simp add: unat_eq_nat_uint addr_cmd_write)

lemma unat_addr_read: "unat (byte (a AND 0x7F) AND 0x7F) = nat (a AND 0x7F)"
  by (simp add: unat_eq_nat_uint addr_cmd_read)

lemma addr_lt_128: "nat ((a::int) AND 0x7F) < 128"
proof -
  have "a AND 0x7F = take_bit 7 a"
    by (simp add: n7F take_bit_eq_mask)
  moreover have "take_bit 7 a < 2 ^ 7"
    by (rule take_bit_int_less_exp)
  moreover have "0 \<le> take_bit 7 a"
    by simp
  ultimately show ?thesis by simp
qed

lemma mask_then_FF:
  "(x AND 0x7F) AND 0xFF = x AND (0x7F::int)"
  "(x AND 0x3F) AND 0xFF = x AND (0x3F::int)"
  "(x AND 0x1F) AND 0xFF = x AND (0x1F::int)"
  "(x AND 0x03) AND 0xFF = x AND (0x03::int)"
  "(x AND 0xFF) AND 0xFF = x AND (0xFF::int)"
  by (simp_all add: and.assoc)

lemma bit7_as_mask: "(uint w AND 0x80 = 0x80) = bit w 7" for w :: u8
proof
  assume "uint w AND 0x80 = 0x80"
  then have "bit (uint w AND 0x80) 7 = bit (0x80::int) 7"
    by simp
  then show "bit w 7"
    by (simp add: bit_and_iff bit_128 bit_uint_iff)
next
  assume "bit w 7"
  then show "uint w AND 0x80 = 0x80"
    by (intro bit_eqI) (auto simp add: bit_and_iff bit_128 bit_uint_iff)
qed

lemma take2_upd: "2 \<le> length xs \<Longrightarrow> take 2 (xs[0 := a, Suc 0 := b]) = [a, b]"
  by (cases xs; cases "tl xs") (simp_all add: numeral_2_eq_2)

subsection \<open>The codec on two-digit values\<close>

lemma bcd_round_trip_upto_99: "\<forall>n \<in> set [0..99]. bcd_to_int (int_to_bcd n) = n"
  by code_simp

lemma int_to_bcd_packs_upto_99: "\<forall>n \<in> set [0..99]. int_to_bcd n = packed_digits_spec n"
  by code_simp

text \<open>
  C4. BCD round trip: for every integer \<open>n\<close> with \<open>0 \<le> n \<le> 99\<close>,
  \<open>bcd_to_int (int_to_bcd n) = n\<close>.
\<close>

theorem bcd_round_trip: "0 \<le> n \<Longrightarrow> n \<le> 99 \<Longrightarrow> bcd_to_int (int_to_bcd n) = n"
  using bcd_round_trip_upto_99 by simp

theorem bcd_round_trip_witness:
  "(0::int) \<le> 59 \<and> (59::int) \<le> 99 \<and> bcd_to_int (int_to_bcd 59) = 59"
  using bcd_round_trip [of 59] by simp

text \<open>
  C2. The specification has \<open>int_to_bcd\<close> pack the thousands, hundreds, tens and ones
  digits at bit offsets 12, 8, 4 and 0 for every value of up to four decimal digits. The
  source shifts the thousands nibble by \<open>0x12\<close> (eighteen) and takes the hundreds and tens
  nibbles from the undivided quotients: at 1000 it returns 264768 where the packing is
  4096, and at 100 it returns 416 where the packing is 256.
\<close>

theorem int_to_bcd_four_digits_diverges:
  "int_to_bcd 1000 = 264768 \<and> packed_digits_spec 1000 = 4096
   \<and> int_to_bcd 100 = 416 \<and> packed_digits_spec 100 = 256"
  by (simp add: int_to_bcd_def packed_digits_spec_def)

subsection \<open>The transport on a bus that does not fault\<close>

lemma clock_out_cmd_write2:
  "ptr s = None \<Longrightarrow> bit c 7 \<Longrightarrow>
   clock_out [c, v] s = s\<lparr>regs := (regs s)(unat (c AND 0x7F) := v),
                           ptr := Some (Writing, (unat (c AND 0x7F) + 1) mod 128)\<rparr>"
  by (simp add: clock_byte_def)

lemma clock_out_cmd_read1:
  "ptr s = None \<Longrightarrow> \<not> bit c 7 \<Longrightarrow>
   clock_out [c] s = s\<lparr>ptr := Some (Reading, unat (c AND 0x7F))\<rparr>"
  by (simp add: clock_byte_def)

lemma clock_in_reading:
  "ptr s = Some (Reading, a) \<Longrightarrow> a < 128 \<Longrightarrow>
   clock_in n s = (map (\<lambda>i. regs s ((a + i) mod 128)) [0..<n],
                   s\<lparr>ptr := Some (Reading, (a + n) mod 128)\<rparr>)"
proof (induction n arbitrary: s a)
  case 0
  then show ?case by simp
next
  case (Suc n)
  let ?s1 = "s\<lparr>ptr := Some (Reading, (a + 1) mod 128)\<rparr>"
  have cb: "clock_byte 0 s = (regs s a, ?s1)"
    using Suc.prems by (simp add: clock_byte_def)
  have ih: "clock_in n ?s1 = (map (\<lambda>i. regs ?s1 (((a + 1) mod 128 + i) mod 128)) [0..<n],
                   ?s1\<lparr>ptr := Some (Reading, ((a + 1) mod 128 + n) mod 128)\<rparr>)"
    by (rule Suc.IH) simp_all
  have m: "map (\<lambda>i. regs s ((a + i) mod 128)) [0..<Suc n]
           = regs s a # map (\<lambda>i. regs s (((a + 1) mod 128 + i) mod 128)) [0..<n]"
    using Suc.prems(2) by (simp add: upt_conv_Cons map_Suc_upt [symmetric] mod_add_left_eq del: upt_Suc)
  have "clock_in (Suc n) s = (regs s a # fst (clock_in n ?s1), snd (clock_in n ?s1))"
    by (simp add: cb split: prod.split)
  also have "\<dots> = (map (\<lambda>i. regs s ((a + i) mod 128)) [0..<Suc n],
                   s\<lparr>ptr := Some (Reading, (a + Suc n) mod 128)\<rparr>)"
    unfolding m ih by (simp add: mod_add_left_eq)
  finally show ?case .
qed

lemma write_u8_ok:
  assumes "faults s = []" and "2 \<le> length (BUFFER s)"
  shows "write_u8 a v s =
     (Inr (), s\<lparr>regs := (regs s)(nat (a AND 0x7F) := byte (v AND 0xFF)),
                ptr := Some (Writing, (nat (a AND 0x7F) + 1) mod 128),
                selected := False,
                trace := trace s @ [Select, Tx [byte ((a OR 0x80) AND 0xFF), byte (v AND 0xFF)], Deselect],
                BUFFER := (BUFFER s)[0 := byte ((a OR 0x80) AND 0xFF), 1 := byte (v AND 0xFF)]\<rparr>)"
proof -
  let ?c = "byte ((a OR 0x80) AND 0xFF)"
  let ?v = "byte (v AND 0xFF)"
  let ?s1 = "s\<lparr>selected := True, ptr := None, trace := trace s @ [Select],
                BUFFER := (BUFFER s)[0 := ?c, 1 := ?v]\<rparr>"
  have t: "take 2 (BUFFER ?s1) = [?c, ?v]"
    using assms(2) by (simp add: take2_upd)
  have co: "clock_out [?c, ?v] ?s1 = ?s1\<lparr>regs := (regs ?s1)(unat (?c AND 0x7F) := ?v),
                           ptr := Some (Writing, (unat (?c AND 0x7F) + 1) mod 128)\<rparr>"
    by (rule clock_out_cmd_write2) (simp_all add: bit_cmd_write)
  have w: "device_write (take 2 (BUFFER ?s1)) ?s1 =
      (Inr (), ?s1\<lparr>regs := (regs s)(nat (a AND 0x7F) := ?v),
                ptr := Some (Writing, (nat (a AND 0x7F) + 1) mod 128),
                trace := trace s @ [Select, Tx [?c, ?v]]\<rparr>)"
    using assms(1) co unfolding t device_write_def
    by (simp add: next_fault_def unat_addr_write del: clock_out.simps)
  have b: "bind_io (setitem_BUFFER 0 ?c) (\<lambda>_. bind_io (setitem_BUFFER 1 ?v)
              (\<lambda>_ s1. device_write (take 2 (BUFFER s1)) s1)) (enter_device s)
           = device_write (take 2 (BUFFER ?s1)) ?s1"
  proof -
    have "0 < length (BUFFER s)" and "1 < length (BUFFER s)"
      using assms(2) by arith+
    then show ?thesis
      by (simp add: bind_io_def setitem_BUFFER_def enter_device_def)
  qed
  show ?thesis
    unfolding write_u8_def with_device_def b w by (simp add: exit_device_def)
qed

lemma read_into_global_ok:
  assumes "faults s = []" and "0 < n" and "n \<le> length (BUFFER s)"
  shows "read_into a GlobalBuffer (Some n) s =
     (Inr (), s\<lparr>ptr := Some (Reading, (nat (a AND 0x7F) + n) mod 128),
                selected := False,
                trace := trace s @ [Select, Tx [byte (a AND 0x7F)],
                           Rx (map (\<lambda>i. regs s ((nat (a AND 0x7F) + i) mod 128)) [0..<n]), Deselect],
                BUFFER := map (\<lambda>i. regs s ((nat (a AND 0x7F) + i) mod 128)) [0..<n]
                          @ drop n (BUFFER s)\<rparr>)"
proof -
  let ?c = "byte (a AND 0x7F)"
  let ?s1 = "s\<lparr>selected := True, ptr := None, trace := trace s @ [Select],
                BUFFER := (BUFFER s)[0 := ?c]\<rparr>"
  let ?s2 = "?s1\<lparr>ptr := Some (Reading, nat (a AND 0x7F)), trace := trace s @ [Select, Tx [?c]]\<rparr>"
  have w: "device_write [?c] ?s1 = (Inr (), ?s2)"
    using assms(1)
    by (simp add: device_write_def next_fault_def clock_out_cmd_read1 bit_cmd_read unat_addr_read
        del: clock_out.simps)
  have ci: "clock_in n ?s2 = (map (\<lambda>i. regs ?s2 ((nat (a AND 0x7F) + i) mod 128)) [0..<n],
                   ?s2\<lparr>ptr := Some (Reading, (nat (a AND 0x7F) + n) mod 128)\<rparr>)"
    by (rule clock_in_reading) (simp_all add: addr_lt_128)
  have d: "drop n ((BUFFER s)[0 := ?c]) = drop n (BUFFER s)"
    using assms(2) by (simp add: drop_update_cancel)
  have r: "device_readinto GlobalBuffer n ?s2 = (Inr (), ?s2\<lparr>ptr := Some (Reading, (nat (a AND 0x7F) + n) mod 128),
        trace := trace s @ [Select, Tx [?c], Rx (map (\<lambda>i. regs s ((nat (a AND 0x7F) + i) mod 128)) [0..<n])],
        BUFFER := map (\<lambda>i. regs s ((nat (a AND 0x7F) + i) mod 128)) [0..<n] @ drop n (BUFFER s)\<rparr>)"
    using assms ci by (simp add: device_readinto_def next_fault_def get_buf_def set_buf_def d min_absorb1)
  have t: "take 1 ((BUFFER s)[0 := ?c]) = [?c]"
    using assms(2,3) by (cases "BUFFER s") simp_all
  have ne: "0 < length (BUFFER s)"
    using assms(2,3) by arith
  show ?thesis
    using ne t w r
    by (simp add: read_into_def with_device_def bind_io_def setitem_BUFFER_def enter_device_def
        exit_device_def)
qed

lemma read_u8_ok:
  assumes "faults s = []" and "0 < length (BUFFER s)"
  shows "read_u8 a s =
     (Inr (uint (regs s (nat (a AND 0x7F)))),
      s\<lparr>ptr := Some (Reading, (nat (a AND 0x7F) + 1) mod 128),
        selected := False,
        trace := trace s @ [Select, Tx [byte (a AND 0x7F)], Rx [regs s (nat (a AND 0x7F))], Deselect],
        BUFFER := regs s (nat (a AND 0x7F)) # drop 1 (BUFFER s)\<rparr>)"
proof -
  have l: "nat (a AND 0x7F) mod 128 = nat (a AND 0x7F)"
    using addr_lt_128 [of a] by simp
  have ri: "read_into a GlobalBuffer (Some 1) s =
     (Inr (), s\<lparr>ptr := Some (Reading, (nat (a AND 0x7F) + 1) mod 128),
                selected := False,
                trace := trace s @ [Select, Tx [byte (a AND 0x7F)],
                           Rx (map (\<lambda>i. regs s ((nat (a AND 0x7F) + i) mod 128)) [0..<1]), Deselect],
                BUFFER := map (\<lambda>i. regs s ((nat (a AND 0x7F) + i) mod 128)) [0..<1]
                          @ drop 1 (BUFFER s)\<rparr>)"
  proof (rule read_into_global_ok)
    show "faults s = []" by (rule assms(1))
    show "0 < (1::nat)" by simp
    show "1 \<le> length (BUFFER s)" using assms(2) by arith
  qed
  show ?thesis
    using ri by (simp add: read_u8_def bind_io_def getitem_BUFFER_def return_io_def l)
qed

subsection \<open>The facade on a bus that does not fault\<close>

lemma getter_ok:
  assumes "faults s = []" and "length (BUFFER s) = 8"
  shows "datetime_getter s =
    (Inr \<lparr>tm_year = bcd_to_int (uint (regs s 6)) + 2000,
          tm_mon = bcd_to_int (uint (regs s 5)),
          tm_mday = bcd_to_int (uint (regs s 4)),
          tm_hour = bcd_to_int (uint (regs s 2)),
          tm_min = bcd_to_int (uint (regs s 1)),
          tm_sec = bcd_to_int (uint (regs s 0)),
          tm_wday = uint (regs s 3) AND 0x07,
          tm_yday = - 1, tm_isdst = - 1\<rparr>,
     s\<lparr>ptr := Some (Reading, 7), selected := False,
       trace := trace s @ [Select, Tx [0x00],
                  Rx [regs s 0, regs s 1, regs s 2, regs s 3, regs s 4, regs s 5, regs s 6],
                  Deselect],
       BUFFER := [regs s 0, regs s 1, regs s 2, regs s 3, regs s 4, regs s 5, regs s 6]
                 @ drop 7 (BUFFER s)\<rparr>)"
proof -
  have u: "[0..<7] = [0, 1, 2, 3, 4, 5, 6::nat]"
    by (simp add: upt_rec)
  have ri: "read_into S_REG GlobalBuffer (Some 7) s =
     (Inr (), s\<lparr>ptr := Some (Reading, (nat (S_REG AND 0x7F) + 7) mod 128),
                selected := False,
                trace := trace s @ [Select, Tx [byte (S_REG AND 0x7F)],
                           Rx (map (\<lambda>i. regs s ((nat (S_REG AND 0x7F) + i) mod 128)) [0..<7]), Deselect],
                BUFFER := map (\<lambda>i. regs s ((nat (S_REG AND 0x7F) + i) mod 128)) [0..<7]
                          @ drop 7 (BUFFER s)\<rparr>)"
    by (rule read_into_global_ok) (use assms in simp_all)
  show ?thesis
    unfolding datetime_getter_def
    using ri assms(2)
    by (simp add: u S_REG_def byte_def bind_io_def getitem_BUFFER_def return_io_def del: upt_Suc)
qed

lemma valid_ok:
  assumes "faults s = []" and "length (BUFFER s) = 8"
  shows "valid s = (Inr (\<not> bit (regs s 0x10) 7),
      s\<lparr>ptr := Some (Reading, 0x11), selected := False,
        trace := trace s @ [Select, Tx [0x10], Rx [regs s 0x10], Deselect],
        BUFFER := regs s 0x10 # drop 1 (BUFFER s)\<rparr>)"
proof -
  have r: "read_u8 0x10 s = (Inr (uint (regs s (nat (0x10 AND 0x7F)))),
      s\<lparr>ptr := Some (Reading, (nat (0x10 AND 0x7F) + 1) mod 128),
        selected := False,
        trace := trace s @ [Select, Tx [byte (0x10 AND 0x7F)], Rx [regs s (nat (0x10 AND 0x7F))], Deselect],
        BUFFER := regs s (nat (0x10 AND 0x7F)) # drop 1 (BUFFER s)\<rparr>)"
    by (rule read_u8_ok) (use assms in simp_all)
  show ?thesis
    unfolding valid_def using r by (simp add: bind_io_def return_io_def bit7_as_mask byte_def)
qed

lemma write_time_ok:
  assumes f: "faults s = []" and l: "length (BUFFER s) = 8"
  shows "fst (write_time ts s) = Inr ()"
    and "regs (snd (write_time ts s)) =
           (regs s)(0 := byte (int_to_bcd (tm_sec ts) AND 0x7F),
                    1 := byte (int_to_bcd (tm_min ts) AND 0x7F),
                    2 := byte (int_to_bcd (tm_hour ts) AND 0x3F),
                    3 := byte (tm_wday ts AND 0x03),
                    4 := byte (int_to_bcd (tm_mday ts) AND 0x3F),
                    5 := byte (int_to_bcd (tm_mon ts) AND 0x1F),
                    6 := byte (int_to_bcd (tm_year ts - 2000) AND 0xFF),
                    0x10 := byte (uint (regs s 0x10) AND 0x7F))"
    and "trace (snd (write_time ts s)) = trace s @
           [Select, Tx [0x80, byte (int_to_bcd (tm_sec ts) AND 0x7F)], Deselect,
            Select, Tx [0x81, byte (int_to_bcd (tm_min ts) AND 0x7F)], Deselect,
            Select, Tx [0x82, byte (int_to_bcd (tm_hour ts) AND 0x3F)], Deselect,
            Select, Tx [0x83, byte (tm_wday ts AND 0x03)], Deselect,
            Select, Tx [0x84, byte (int_to_bcd (tm_mday ts) AND 0x3F)], Deselect,
            Select, Tx [0x85, byte (int_to_bcd (tm_mon ts) AND 0x1F)], Deselect,
            Select, Tx [0x86, byte (int_to_bcd (tm_year ts - 2000) AND 0xFF)], Deselect,
            Select, Tx [0x10], Rx [regs s 0x10], Deselect,
            Select, Tx [0x90, byte (uint (regs s 0x10) AND 0x7F)], Deselect]"
    and "faults (snd (write_time ts s)) = []"
    and "length (BUFFER (snd (write_time ts s))) = 8"
    and "selected (snd (write_time ts s)) = False"
proof -
  have ne: "BUFFER s \<noteq> []" using l by auto
  note [simp] = write_time_def bind_io_def write_u8_ok read_u8_ok mask_then_FF f l ne byte_def
  show "fst (write_time ts s) = Inr ()" by simp
  show "faults (snd (write_time ts s)) = []" by simp
  show "length (BUFFER (snd (write_time ts s))) = 8" by simp
  show "selected (snd (write_time ts s)) = False" by simp
  show "trace (snd (write_time ts s)) = trace s @
           [Select, Tx [0x80, byte (int_to_bcd (tm_sec ts) AND 0x7F)], Deselect,
            Select, Tx [0x81, byte (int_to_bcd (tm_min ts) AND 0x7F)], Deselect,
            Select, Tx [0x82, byte (int_to_bcd (tm_hour ts) AND 0x3F)], Deselect,
            Select, Tx [0x83, byte (tm_wday ts AND 0x03)], Deselect,
            Select, Tx [0x84, byte (int_to_bcd (tm_mday ts) AND 0x3F)], Deselect,
            Select, Tx [0x85, byte (int_to_bcd (tm_mon ts) AND 0x1F)], Deselect,
            Select, Tx [0x86, byte (int_to_bcd (tm_year ts - 2000) AND 0xFF)], Deselect,
            Select, Tx [0x10], Rx [regs s 0x10], Deselect,
            Select, Tx [0x90, byte (uint (regs s 0x10) AND 0x7F)], Deselect]" by simp
  show "regs (snd (write_time ts s)) =
           (regs s)(0 := byte (int_to_bcd (tm_sec ts) AND 0x7F),
                    1 := byte (int_to_bcd (tm_min ts) AND 0x7F),
                    2 := byte (int_to_bcd (tm_hour ts) AND 0x3F),
                    3 := byte (tm_wday ts AND 0x03),
                    4 := byte (int_to_bcd (tm_mday ts) AND 0x3F),
                    5 := byte (int_to_bcd (tm_mon ts) AND 0x1F),
                    6 := byte (int_to_bcd (tm_year ts - 2000) AND 0xFF),
                    0x10 := byte (uint (regs s 0x10) AND 0x7F))" by simp
qed

subsection \<open>Reading the time and the validity flag\<close>

text \<open>
  C6. On a bus that does not fault, get-time performs one burst read of seven bytes from
  register 0x00 and, for every register image, returns the BCD decoding of bytes 0, 1, 2,
  4 and 5 as seconds, minutes, hours, day of month and month, byte 3 masked with 0x07 as
  the day of week, and the decoding of byte 6 plus 2000 as the year.
\<close>

theorem datetime_getter_decodes:
  assumes "faults s = []" and "length (BUFFER s) = 8"
  shows "fst (datetime_getter s) =
           Inr \<lparr>tm_year = bcd_to_int (uint (regs s 6)) + 2000,
                tm_mon = bcd_to_int (uint (regs s 5)),
                tm_mday = bcd_to_int (uint (regs s 4)),
                tm_hour = bcd_to_int (uint (regs s 2)),
                tm_min = bcd_to_int (uint (regs s 1)),
                tm_sec = bcd_to_int (uint (regs s 0)),
                tm_wday = uint (regs s 3) AND 0x07,
                tm_yday = - 1, tm_isdst = - 1\<rparr>
         \<and> new_events s (snd (datetime_getter s)) =
             [Select, Tx [0x00],
              Rx [regs s 0, regs s 1, regs s 2, regs s 3, regs s 4, regs s 5, regs s 6],
              Deselect]"
  using assms by (simp add: getter_ok new_events_def)

theorem datetime_getter_decodes_witness:
  "faults chip_2024 = [] \<and> length (BUFFER chip_2024) = 8
   \<and> fst (datetime_getter chip_2024) =
       Inr \<lparr>tm_year = 2024, tm_mon = 3, tm_mday = 15, tm_hour = 13, tm_min = 5,
            tm_sec = 30, tm_wday = 5, tm_yday = - 1, tm_isdst = - 1\<rparr>
   \<and> new_events chip_2024 (snd (datetime_getter chip_2024)) =
       [Select, Tx [0x00], Rx [0x30, 0x05, 0x13, 0x05, 0x15, 0x03, 0x24], Deselect]"
  using datetime_getter_decodes [of chip_2024]
  by (simp add: chip_2024_def power_on_def bcd_to_int_def)

text \<open>
  C8. On a bus that does not fault, get-valid reads the status register at address 0x10
  and returns true if and only if bit 7 of the byte read is 0.
\<close>

theorem valid_iff_osf_clear:
  assumes "faults s = []" and "length (BUFFER s) = 8"
  shows "fst (valid s) = Inr (\<not> bit (regs s 0x10) 7)
         \<and> new_events s (snd (valid s)) = [Select, Tx [0x10], Rx [regs s 0x10], Deselect]"
  using assms by (simp add: valid_ok new_events_def)

theorem valid_iff_osf_clear_witness:
  "faults chip_2024 = [] \<and> length (BUFFER chip_2024) = 8
   \<and> fst (valid chip_2024) = Inr False
   \<and> faults power_on = [] \<and> length (BUFFER power_on) = 8
   \<and> fst (valid power_on) = Inr True"
  using valid_iff_osf_clear [of chip_2024] valid_iff_osf_clear [of power_on]
  by (simp add: chip_2024_def power_on_def)

subsection \<open>Setting the time\<close>

lemma resolved_setter:
  "resolve_time localtime set_time = Inr ts \<Longrightarrow>
   datetime_setter localtime set_time s = write_time ts s"
  by (simp add: datetime_setter_def bind_io_def lift_io_def)

lemma resolve_time_object: "resolve_time localtime (Some obj) = localtime obj"
  by (simp add: resolve_time_def isinstance_struct_time_def)

lemma resolve_time_int: "resolve_time (localtime_of conv) (Some (PyInt n)) = conv n"
  by (simp add: resolve_time_object localtime_of_def)

lemma resolve_time_default: "resolve_time (localtime_of conv) None = conv 0"
  by (simp add: resolve_time_def localtime_of_def)

lemma setter_rejects_struct_time:
  "datetime_setter (localtime_of conv) (Some (StructTime t)) s = (Inl TypeError, s)"
  by (simp add: datetime_setter_def bind_io_def lift_io_def resolve_time_object localtime_of_def)

text \<open>
  Once the setter's argument resolves to a calendar time (whatever its fields) and the bus
  does not fault, set-time issues exactly seven single-byte register writes, to 0x00
  seconds, 0x01 minutes, 0x02 hours, 0x03 weekday, 0x04 day, 0x05 month and 0x06 year in
  this order, each value under its mask (0x7F, 0x7F, 0x3F, 0x03, 0x3F, 0x1F, 0xFF), and only
  then reads the status register 0x10 and writes it back with bit 7 cleared. An integer
  argument \<open>n\<close> resolves to what the host's conversion makes of \<open>n\<close>, no argument to what it
  makes of 0.
\<close>

lemma write_order_when_resolved:
  assumes "resolve_time localtime set_time = Inr ts"
    and "faults s = []" and "length (BUFFER s) = 8"
  shows "fst (datetime_setter localtime set_time s) = Inr ()
         \<and> new_events s (snd (datetime_setter localtime set_time s)) =
           [Select, Tx [0x80, byte (int_to_bcd (tm_sec ts) AND 0x7F)], Deselect,
            Select, Tx [0x81, byte (int_to_bcd (tm_min ts) AND 0x7F)], Deselect,
            Select, Tx [0x82, byte (int_to_bcd (tm_hour ts) AND 0x3F)], Deselect,
            Select, Tx [0x83, byte (tm_wday ts AND 0x03)], Deselect,
            Select, Tx [0x84, byte (int_to_bcd (tm_mday ts) AND 0x3F)], Deselect,
            Select, Tx [0x85, byte (int_to_bcd (tm_mon ts) AND 0x1F)], Deselect,
            Select, Tx [0x86, byte (int_to_bcd (tm_year ts - 2000) AND 0xFF)], Deselect,
            Select, Tx [0x10], Rx [regs s 0x10], Deselect,
            Select, Tx [0x90, byte (uint (regs s 0x10) AND 0x7F)], Deselect]"
  using assms write_time_ok(1,3) [of s ts]
  by (simp add: resolved_setter new_events_def)

lemma write_order_of_seconds:
  assumes "conv n = Inr ts" and "faults s = []" and "length (BUFFER s) = 8"
  shows "new_events s (snd (datetime_setter (localtime_of conv) (Some (PyInt n)) s)) =
           [Select, Tx [0x80, byte (int_to_bcd (tm_sec ts) AND 0x7F)], Deselect,
            Select, Tx [0x81, byte (int_to_bcd (tm_min ts) AND 0x7F)], Deselect,
            Select, Tx [0x82, byte (int_to_bcd (tm_hour ts) AND 0x3F)], Deselect,
            Select, Tx [0x83, byte (tm_wday ts AND 0x03)], Deselect,
            Select, Tx [0x84, byte (int_to_bcd (tm_mday ts) AND 0x3F)], Deselect,
            Select, Tx [0x85, byte (int_to_bcd (tm_mon ts) AND 0x1F)], Deselect,
            Select, Tx [0x86, byte (int_to_bcd (tm_year ts - 2000) AND 0xFF)], Deselect,
            Select, Tx [0x10], Rx [regs s 0x10], Deselect,
            Select, Tx [0x90, byte (uint (regs s 0x10) AND 0x7F)], Deselect]"
proof -
  have "resolve_time (localtime_of conv) (Some (PyInt n)) = Inr ts"
    using assms(1) by (simp add: resolve_time_int)
  from write_order_when_resolved [OF this assms(2,3)] show ?thesis
    by simp
qed

lemma write_order_example:
  "new_events chip_2024
     (snd (datetime_setter (localtime_of (\<lambda>_. Inr ct_2024_03_15)) (Some (PyInt 0)) chip_2024)) =
           [Select, Tx [0x80, 0x30], Deselect,
            Select, Tx [0x81, 0x05], Deselect,
            Select, Tx [0x82, 0x13], Deselect,
            Select, Tx [0x83, 0x01], Deselect,
            Select, Tx [0x84, 0x15], Deselect,
            Select, Tx [0x85, 0x03], Deselect,
            Select, Tx [0x86, 0x24], Deselect,
            Select, Tx [0x10], Rx [0x80], Deselect,
            Select, Tx [0x90, 0x00], Deselect]"
proof -
  have f: "faults chip_2024 = []" and l: "length (BUFFER chip_2024) = 8"
    by (simp_all add: chip_2024_def power_on_def)
  have c: "(\<lambda>_::int. Inr ct_2024_03_15 :: error + struct_time) 0 = Inr ct_2024_03_15"
    by simp
  show ?thesis
    using write_order_of_seconds [OF c f l]
    by (simp add: ct_2024_03_15_def int_to_bcd_def byte_def chip_2024_def power_on_def)
qed

text \<open>
  C7. The specification has set-time issue the seven masked register writes and the status
  write-back for every input. A calendar time is an input the setter documents, and for it
  the setter issues none: the type test \<open>isinstance(set, struct_time)\<close> is false, the
  \<open>struct_time\<close> goes to \<open>localtime\<close>, which raises \<open>TypeError\<close> before the first write.
  The call returns the error, adds no event to the trace and leaves every register as it
  was.
\<close>

theorem setter_struct_time_issues_no_writes:
  "fst (datetime_setter (localtime_of conv) (Some (StructTime ct_2024_03_15)) s) = Inl TypeError
   \<and> new_events s (snd (datetime_setter (localtime_of conv) (Some (StructTime ct_2024_03_15)) s)) = []
   \<and> regs (snd (datetime_setter (localtime_of conv) (Some (StructTime ct_2024_03_15)) s)) = regs s"
  by (simp add: setter_rejects_struct_time new_events_def)

lemma wday_mask_read_back: "uint (byte (w AND 0x03)) AND 0x07 = w AND 0x03"
proof -
  have 3: "(0x03::int) = mask 2" and 7: "(0x07::int) = mask 3"
    by (simp_all add: mask_eq_exp_minus_1)
  show ?thesis
    unfolding uint_byte 3 7
    by (rule bit_eqI) (auto simp add: bit_and_iff bit_take_bit_iff bit_mask_iff)
qed

lemma wday_truncation: "\<forall>w \<in> set [0..6]. w AND 0x03 = (if w < 4 then w else w - (4::int))"
  by code_simp

lemma wday_masked_below_4: "w AND 0x03 < (4::int)"
proof -
  have "w AND 0x03 = take_bit 2 w"
    by (simp add: take_bit_eq_mask mask_eq_exp_minus_1)
  moreover have "take_bit 2 w < (2::int) ^ 2"
    by (rule take_bit_int_less_exp)
  ultimately show ?thesis by simp
qed

text \<open>
  The two masks of the day of week. Get-time returns the byte of register 0x03 under the
  mask 0x07, for every register image. Once the setter's argument resolves to a calendar
  time with weekday \<open>w\<close>, set-time stores \<open>w AND 0x03\<close> in register 0x03 and get-time after
  it yields \<open>w AND 0x03\<close>, which for \<open>w\<close> from 0 to 6 is \<open>w\<close> up to 3 and \<open>w - 4\<close> for 4, 5
  and 6.
\<close>

lemma weekday_read_mask:
  assumes "faults s = []" and "length (BUFFER s) = 8"
  shows "\<exists>r. fst (datetime_getter s) = Inr r \<and> tm_wday r = uint (regs s 3) AND 0x07"
  by (simp add: getter_ok [OF assms])

lemma weekday_when_resolved:
  assumes "resolve_time localtime set_time = Inr ts"
    and "faults s = []" and "length (BUFFER s) = 8"
    and "0 \<le> tm_wday ts" and "tm_wday ts \<le> 6"
    and "s' = snd (datetime_setter localtime set_time s)"
  shows "regs s' 3 = byte (tm_wday ts AND 0x03)
         \<and> (\<exists>r. fst (datetime_getter s') = Inr r
                \<and> tm_wday r = uint (regs s' 3) AND 0x07
                \<and> tm_wday r = tm_wday ts AND 0x03
                \<and> tm_wday r = (if tm_wday ts < 4 then tm_wday ts else tm_wday ts - 4))"
proof -
  have s': "s' = snd (write_time ts s)"
    using assms(1,6) by (simp add: resolved_setter)
  have f: "faults s' = []" and l: "length (BUFFER s') = 8"
    unfolding s' using assms(2,3) by (rule write_time_ok(4), rule write_time_ok(5))
  have r3: "regs s' 3 = byte (tm_wday ts AND 0x03)"
    unfolding s' using write_time_ok(2) [OF assms(2,3), of ts] by simp
  have t: "tm_wday ts AND 0x03 = (if tm_wday ts < 4 then tm_wday ts else tm_wday ts - 4)"
    using wday_truncation assms(4,5) by simp
  obtain r where g: "fst (datetime_getter s') = Inr r"
    and w: "tm_wday r = uint (regs s' 3) AND 0x07"
    by (simp add: getter_ok [OF f l])
  have m: "tm_wday r = tm_wday ts AND 0x03"
    unfolding w r3 by (rule wday_mask_read_back)
  from g w m t r3 show ?thesis
    by metis
qed

text \<open>
  C3. The specification has get-time after set-time yield \<open>w AND 0x03\<close> for every weekday
  \<open>w\<close> from 0 to 6. A weekday handed to set-time in a calendar time is never written: the
  type test \<open>isinstance(set, struct_time)\<close> is false, the \<open>struct_time\<close> goes to
  \<open>localtime\<close>, which raises \<open>TypeError\<close>, and register 0x03 keeps its byte. On a chip
  whose register 0x03 holds 5, get-time after set-time yields the weekday 5 whatever \<open>w\<close>
  was, and \<open>w AND 0x03\<close> is never 5.
\<close>

theorem weekday_of_struct_time_not_written:
  "datetime_setter (localtime_of conv) (Some (StructTime (ct_2024_03_15\<lparr>tm_wday := w\<rparr>))) chip_2024
     = (Inl TypeError, chip_2024)
   \<and> fst (datetime_getter
           (snd (datetime_setter (localtime_of conv)
                   (Some (StructTime (ct_2024_03_15\<lparr>tm_wday := w\<rparr>))) chip_2024)))
     = Inr \<lparr>tm_year = 2024, tm_mon = 3, tm_mday = 15, tm_hour = 13, tm_min = 5, tm_sec = 30,
            tm_wday = 5, tm_yday = - 1, tm_isdst = - 1\<rparr>
   \<and> w AND 0x03 \<noteq> 5"
proof -
  have f: "faults chip_2024 = []" and l: "length (BUFFER chip_2024) = 8"
    by (simp_all add: chip_2024_def power_on_def)
  have g: "fst (datetime_getter chip_2024)
     = Inr \<lparr>tm_year = 2024, tm_mon = 3, tm_mday = 15, tm_hour = 13, tm_min = 5, tm_sec = 30,
            tm_wday = 5, tm_yday = - 1, tm_isdst = - 1\<rparr>"
    by (simp add: getter_ok [OF f l]) (simp add: chip_2024_def power_on_def bcd_to_int_def)
  have "w AND 0x03 \<noteq> 5"
    using wday_masked_below_4 [of w] by linarith
  then show ?thesis
    by (simp add: setter_rejects_struct_time g)
qed

text \<open>
  The scenario of the specification holds once the calendar time reaches the register
  writes (the day of week apart, which is masked to two bits).
\<close>

lemma scenario_round_trip_when_resolved:
  assumes "resolve_time localtime set_time = Inr ct_2024_03_15"
    and "faults s = []" and "length (BUFFER s) = 8"
  shows "fst (datetime_getter (snd (datetime_setter localtime set_time s))) =
           Inr \<lparr>tm_year = 2024, tm_mon = 3, tm_mday = 15, tm_hour = 13, tm_min = 5,
                tm_sec = 30, tm_wday = 1, tm_yday = - 1, tm_isdst = - 1\<rparr>"
proof -
  let ?s' = "snd (write_time ct_2024_03_15 s)"
  have f: "faults ?s' = []" and l: "length (BUFFER ?s') = 8"
    using assms(2,3) by (rule write_time_ok(4), rule write_time_ok(5))
  show ?thesis
    using write_time_ok(2) [OF assms(2,3), of ct_2024_03_15]
    by (simp add: resolved_setter [OF assms(1)] getter_ok [OF f l])
       (simp add: ct_2024_03_15_def int_to_bcd_def bcd_to_int_def byte_def)
qed

text \<open>
  C1. The specification's scenario passes the calendar time 2024-03-15 13:05:30 (weekday 5)
  to set-time as a \<open>struct_time\<close> and expects get-time to return it. The setter tests
  \<open>isinstance(set, struct_time)\<close>, which is about the builtin \<open>set\<close> and false, so the
  \<open>struct_time\<close> is handed to \<open>localtime\<close>, which raises \<open>TypeError\<close>: no register is
  written, and on a chip with cleared registers get-time then returns the year 2000 and
  zeros.
\<close>

theorem set_explicit_struct_time_rejected:
  "datetime_setter (localtime_of conv) (Some (StructTime ct_2024_03_15)) s = (Inl TypeError, s)
   \<and> fst (datetime_getter
           (snd (datetime_setter (localtime_of conv) (Some (StructTime ct_2024_03_15)) power_on)))
     = Inr \<lparr>tm_year = 2000, tm_mon = 0, tm_mday = 0, tm_hour = 0, tm_min = 0, tm_sec = 0,
            tm_wday = 0, tm_yday = - 1, tm_isdst = - 1\<rparr>"
proof -
  have a: "datetime_setter (localtime_of conv) (Some (StructTime ct_2024_03_15)) s = (Inl TypeError, s)" for s
    by (simp add: datetime_setter_def bind_io_def lift_io_def resolve_time_object localtime_of_def)
  have f: "faults power_on = []" and l: "length (BUFFER power_on) = 8"
    by (simp_all add: power_on_def)
  show ?thesis
    by (simp add: a getter_ok [OF f l]) (simp add: power_on_def bcd_to_int_def)
qed

subsection \<open>The transport on a bus that may fault\<close>

lemma next_fault_eq: "next_fault s = (next_outcome s, s\<lparr>faults := tl (faults s)\<rparr>)"
  by (cases "faults s") (simp_all add: next_fault_def next_outcome_def)

lemma clock_byte_frame [simp]:
  "trace (snd (clock_byte b s)) = trace s"
  "faults (snd (clock_byte b s)) = faults s"
  "BUFFER (snd (clock_byte b s)) = BUFFER s"
  "caller_buf (snd (clock_byte b s)) = caller_buf s"
  "selected (snd (clock_byte b s)) = selected s"
  by (simp_all add: clock_byte_def split: option.split direction.split prod.split)

lemma clock_out_frame [simp]:
  "trace (clock_out bs s) = trace s"
  "faults (clock_out bs s) = faults s"
  "BUFFER (clock_out bs s) = BUFFER s"
  "caller_buf (clock_out bs s) = caller_buf s"
  "selected (clock_out bs s) = selected s"
  by (induction bs arbitrary: s) simp_all

lemma clock_in_Suc_snd: "snd (clock_in (Suc n) s) = snd (clock_in n (snd (clock_byte 0 s)))"
  by (simp split: prod.split)

lemma clock_in_frame [simp]:
  "trace (snd (clock_in n s)) = trace s"
  "faults (snd (clock_in n s)) = faults s"
  "BUFFER (snd (clock_in n s)) = BUFFER s"
  "caller_buf (snd (clock_in n s)) = caller_buf s"
  "selected (snd (clock_in n s)) = selected s"
  by (induction n arbitrary: s) (simp_all add: clock_in_Suc_snd del: clock_in.simps(2))

lemma device_write_eq:
  "device_write bs s =
     (case next_outcome s of
        Some e \<Rightarrow> (Inl e, s\<lparr>faults := tl (faults s)\<rparr>)
      | None \<Rightarrow> (Inr (), (clock_out bs (s\<lparr>faults := tl (faults s)\<rparr>))\<lparr>trace := trace s @ [Tx bs]\<rparr>))"
  by (simp add: device_write_def next_fault_eq split: option.split)

lemma device_readinto_eq:
  "device_readinto buf n s =
     (case next_outcome s of
        Some e \<Rightarrow> (Inl e, s\<lparr>faults := tl (faults s)\<rparr>)
      | None \<Rightarrow>
          (let s1 = s\<lparr>faults := tl (faults s)\<rparr>;
               m = min n (length (get_buf buf s));
               bs = fst (clock_in m s1);
               s2 = snd (clock_in m s1)
           in (Inr (), set_buf buf (bs @ drop m (get_buf buf s)) (s2\<lparr>trace := trace s @ [Rx bs]\<rparr>))))"
  by (cases buf)
    (simp_all add: device_readinto_def next_fault_eq get_buf_def Let_def case_prod_beta
      split: option.split)

lemma clock_in_reading_regs:
  "ptr s = Some (Reading, a) \<Longrightarrow> regs (snd (clock_in n s)) = regs s"
proof (induction n arbitrary: s a)
  case 0
  then show ?case by simp
next
  case (Suc n)
  have p: "ptr (snd (clock_byte 0 s)) = Some (Reading, (a + 1) mod 128)"
    and r: "regs (snd (clock_byte 0 s)) = regs s"
    using Suc.prems by (simp_all add: clock_byte_def)
  show ?case
    unfolding clock_in_Suc_snd using Suc.IH [OF p] r by simp
qed

lemma clock_out_read_cmd:
  "ptr s = None \<Longrightarrow> \<not> bit c 7 \<Longrightarrow>
   regs (clock_out [c] s) = regs s \<and> ptr (clock_out [c] s) = Some (Reading, unat (c AND 0x7F))"
  by (simp add: clock_byte_def)

lemma set_buf_regs [simp]: "regs (set_buf buf v s) = regs s"
  by (cases buf) (simp_all add: set_buf_def)

lemma set_buf_trace [simp]: "trace (set_buf buf v s) = trace s"
  by (cases buf) (simp_all add: set_buf_def)

lemma bind_io_Inr: "m s = (Inr x, s1) \<Longrightarrow> bind_io m f s = f x s1"
  by (simp add: bind_io_def)

lemma bind_io_Inl: "m s = (Inl e, s1) \<Longrightarrow> bind_io m f s = (Inl e, s1)"
  by (simp add: bind_io_def)

lemma with_device_snd: "snd (with_device body s) = exit_device (snd (body (enter_device s)))"
  by (simp add: with_device_def case_prod_beta)

lemma with_device_fst: "fst (with_device body s) = fst (body (enter_device s))"
  by (simp add: with_device_def case_prod_beta)

lemma new_events_exit:
  "trace s1 = trace s @ evs \<Longrightarrow> new_events s (exit_device s1) = evs @ [Deselect]"
  by (simp add: new_events_def exit_device_def)

lemma read_into_outcomes:
  "regs (snd (read_into a buf len s)) = regs s \<and>
   (new_events s (snd (read_into a buf len s)) = [Select, Deselect]
    \<or> new_events s (snd (read_into a buf len s)) = [Select, Tx [byte (a AND 0x7F)], Deselect]
    \<or> (\<exists>bs. new_events s (snd (read_into a buf len s)) =
               [Select, Tx [byte (a AND 0x7F)], Rx bs, Deselect]))"
proof -
  let ?c = "byte (a AND 0x7F)"
  let ?n = "case len of None \<Rightarrow> length (get_buf buf s) | Some n \<Rightarrow> n"
  let ?W = "\<lambda>s1. device_write (take 1 (BUFFER s1)) s1"
  let ?R = "device_readinto buf ?n"
  let ?body = "bind_io (setitem_BUFFER 0 ?c) (\<lambda>_. bind_io ?W (\<lambda>_. ?R))"
  let ?s0 = "(enter_device s)\<lparr>BUFFER := (BUFFER s)[0 := ?c]\<rparr>"
  let ?s1 = "?s0\<lparr>faults := tl (faults s)\<rparr>"
  let ?s2 = "(clock_out [?c] ?s1)\<lparr>trace := trace s @ [Select, Tx [?c]]\<rparr>"
  have snd_eq: "snd (read_into a buf len s) = exit_device (snd (?body (enter_device s)))"
    by (simp add: read_into_def with_device_snd Let_def)
  have goal: ?thesis if r: "regs s1 = regs s"
    and t: "trace s1 = trace s @ [Select] \<or> trace s1 = trace s @ [Select, Tx [?c]]
         \<or> (\<exists>bs. trace s1 = trace s @ [Select, Tx [?c], Rx bs])"
    and b: "snd (?body (enter_device s)) = s1" for s1
  proof -
    have e: "snd (read_into a buf len s) = exit_device s1"
      using snd_eq b by simp
    have 1: "regs (exit_device s1) = regs s"
      using r by (simp add: exit_device_def)
    from t show ?thesis
    proof (elim disjE exE)
      assume "trace s1 = trace s @ [Select]"
      from new_events_exit [OF this] 1 show ?thesis
        unfolding e by simp
    next
      assume "trace s1 = trace s @ [Select, Tx [?c]]"
      from new_events_exit [OF this] 1 show ?thesis
        unfolding e by simp
    next
      fix bs
      assume "trace s1 = trace s @ [Select, Tx [?c], Rx bs]"
      from new_events_exit [OF this] 1 show ?thesis
        unfolding e by simp
    qed
  qed
  show ?thesis
  proof (cases "BUFFER s = []")
    case True
    then have "?body (enter_device s) = (Inl IndexError, enter_device s)"
      by (intro bind_io_Inl) (simp add: setitem_BUFFER_def enter_device_def)
    then show ?thesis
      by (intro goal [of "enter_device s"]) (simp_all add: enter_device_def)
  next
    case False
    then have t: "take 1 (BUFFER ?s0) = [?c]"
      by (cases "BUFFER s") simp_all
    have "setitem_BUFFER 0 ?c (enter_device s) = (Inr (), ?s0)"
      using False by (simp add: setitem_BUFFER_def enter_device_def)
    then have b0: "?body (enter_device s) = bind_io ?W (\<lambda>_. ?R) ?s0"
      by (rule bind_io_Inr)
    show ?thesis
    proof (cases "next_outcome ?s0")
      case (Some e)
      have "?W ?s0 = (Inl e, ?s1)"
        using Some by (simp add: device_write_eq enter_device_def)
      then have "?body (enter_device s) = (Inl e, ?s1)"
        unfolding b0 by (rule bind_io_Inl)
      then show ?thesis
        by (intro goal [of ?s1]) (simp_all add: enter_device_def)
    next
      case None
      have c: "regs (clock_out [?c] ?s1) = regs ?s1 \<and>
               ptr (clock_out [?c] ?s1) = Some (Reading, unat (?c AND 0x7F))"
        by (rule clock_out_read_cmd) (simp_all add: bit_cmd_read enter_device_def)
      have p2: "ptr ?s2 = Some (Reading, unat (?c AND 0x7F))" and r2: "regs ?s2 = regs s"
        using c by (simp_all add: enter_device_def)
      have "?W ?s0 = (Inr (), ?s2)"
        unfolding t using None
        by (simp add: device_write_eq enter_device_def del: clock_out.simps)
      then have b1: "?body (enter_device s) = ?R ?s2"
        unfolding b0 by (rule bind_io_Inr)
      show ?thesis
      proof (cases "next_outcome ?s2")
        case (Some e)
        then have "?R ?s2 = (Inl e, ?s2\<lparr>faults := tl (faults ?s2)\<rparr>)"
          by (simp add: device_readinto_eq)
        then show ?thesis
          using r2 unfolding b1 [symmetric]
          by (intro goal [of "?s2\<lparr>faults := tl (faults ?s2)\<rparr>"]) simp_all
      next
        case None
        let ?t = "?s2\<lparr>faults := tl (faults ?s2)\<rparr>"
        let ?m = "min ?n (length (get_buf buf ?s2))"
        let ?s3 = "set_buf buf (fst (clock_in ?m ?t) @ drop ?m (get_buf buf ?s2))
                     ((snd (clock_in ?m ?t))\<lparr>trace := trace ?s2 @ [Rx (fst (clock_in ?m ?t))]\<rparr>)"
        have "ptr ?t = Some (Reading, unat (?c AND 0x7F))"
          using p2 by simp
        then have r3: "regs (snd (clock_in ?m ?t)) = regs ?t"
          by (rule clock_in_reading_regs)
        have "?R ?s2 = (Inr (), ?s3)"
          using None by (simp add: device_readinto_eq Let_def)
        then have b2: "snd (?body (enter_device s)) = ?s3"
          unfolding b1 by simp
        have "regs ?s3 = regs s"
          using r3 r2 by simp
        moreover have "\<exists>bs. trace ?s3 = trace s @ [Select, Tx [?c], Rx bs]"
          by simp
        ultimately show ?thesis
          using b2 by (intro goal [of ?s3]) blast+
      qed
    qed
  qed
qed

lemma grows_setitem: "grows (setitem_BUFFER i v)"
  by (simp add: grows_def setitem_BUFFER_def transfer_only_def)

lemma grows_device_write: "grows (\<lambda>s. device_write (g s) s)"
  unfolding grows_def
proof
  fix s
  show "\<exists>evs. trace (snd (device_write (g s) s)) = trace s @ evs \<and> transfer_only evs"
    by (cases "next_outcome s") (simp_all add: device_write_eq transfer_only_def)
qed

lemma grows_device_readinto: "grows (device_readinto buf n)"
  unfolding grows_def
proof
  fix s
  show "\<exists>evs. trace (snd (device_readinto buf n s)) = trace s @ evs \<and> transfer_only evs"
    by (cases "next_outcome s") (simp_all add: device_readinto_eq transfer_only_def Let_def)
qed

lemma grows_bind:
  assumes "grows m" and "\<And>x. grows (f x)"
  shows "grows (bind_io m f)"
  unfolding grows_def
proof
  fix s
  obtain r s1 where m: "m s = (r, s1)"
    by (cases "m s")
  from assms(1) obtain evs where e: "trace s1 = trace s @ evs" "transfer_only evs"
    using m unfolding grows_def by (metis snd_conv)
  show "\<exists>evs. trace (snd (bind_io m f s)) = trace s @ evs \<and> transfer_only evs"
  proof (cases r)
    case (Inl err)
    then show ?thesis
      using m e by (auto simp: bind_io_def)
  next
    case (Inr x)
    from assms(2) [of x] obtain evs'
      where e': "trace (snd (f x s1)) = trace s1 @ evs'" "transfer_only evs'"
      unfolding grows_def by blast
    have "trace (snd (bind_io m f s)) = trace s @ (evs @ evs')"
      using m Inr e e' by (simp add: bind_io_def)
    moreover have "transfer_only (evs @ evs')"
      using e e' by (simp add: transfer_only_def)
    ultimately show ?thesis by blast
  qed
qed

lemma with_device_session:
  assumes "grows body"
  shows "selected (snd (with_device body s)) = False \<and>
         (\<exists>mid. new_events s (snd (with_device body s)) = [Select] @ mid @ [Deselect]
                \<and> transfer_only mid)"
proof -
  from assms obtain evs
    where e0: "trace (snd (body (enter_device s))) = trace (enter_device s) @ evs"
      and t: "transfer_only evs"
    unfolding grows_def by blast
  have e: "trace (snd (body (enter_device s))) = trace s @ ([Select] @ evs)"
    unfolding e0 by (simp add: enter_device_def)
  have "new_events s (snd (with_device body s)) = [Select] @ evs @ [Deselect]"
    unfolding with_device_snd using new_events_exit [OF e] by simp
  with t show ?thesis
    by (auto simp add: with_device_snd exit_device_def)
qed


lemma first_fault_2: "first_fault 2 fs = first_fault (Suc (Suc 0)) fs"
  by (simp add: numeral_2_eq_2)

lemma first_fault_1: "first_fault 1 fs = first_fault (Suc 0) fs"
  by simp

lemmas transport_defs =
  with_device_def bind_io_def setitem_BUFFER_def device_write_eq device_readinto_eq
  next_outcome_def enter_device_def exit_device_def Let_def case_prod_beta

lemma read_into_result:
  assumes "BUFFER s \<noteq> []"
  shows "fst (read_into a buf len s) =
           (case first_fault 2 (faults s) of Some e \<Rightarrow> Inl e | None \<Rightarrow> Inr ())"
proof (cases "faults s")
  case Nil
  then show ?thesis
    using assms by (simp add: first_fault_2 read_into_def transport_defs)
next
  case outer: (Cons f fs)
  show ?thesis
  proof (cases f)
    case (Some e)
    then show ?thesis
      using assms outer by (simp add: first_fault_2 read_into_def transport_defs)
  next
    case None
    show ?thesis
    proof (cases fs)
      case Nil
      then show ?thesis
        using assms outer None by (simp add: first_fault_2 read_into_def transport_defs)
    next
      case (Cons g gs)
      then show ?thesis
        using assms outer None
        by (cases g) (simp_all add: first_fault_2 read_into_def transport_defs)
    qed
  qed
qed

lemma write_from_result:
  assumes "BUFFER s \<noteq> []"
  shows "fst (write_from a buf len s) =
           (case first_fault 2 (faults s) of Some e \<Rightarrow> Inl e | None \<Rightarrow> Inr ())"
proof (cases "faults s")
  case Nil
  then show ?thesis
    using assms by (simp add: first_fault_2 write_from_def transport_defs)
next
  case outer: (Cons f fs)
  show ?thesis
  proof (cases f)
    case (Some e)
    then show ?thesis
      using assms outer by (simp add: first_fault_2 write_from_def transport_defs)
  next
    case None
    show ?thesis
    proof (cases fs)
      case Nil
      then show ?thesis
        using assms outer None by (simp add: first_fault_2 write_from_def transport_defs)
    next
      case (Cons g gs)
      then show ?thesis
        using assms outer None
        by (cases g) (simp_all add: first_fault_2 write_from_def transport_defs)
    qed
  qed
qed

lemma write_u8_result:
  assumes "2 \<le> length (BUFFER s)"
  shows "fst (write_u8 a v s) =
           (case first_fault 1 (faults s) of Some e \<Rightarrow> Inl e | None \<Rightarrow> Inr ())"
proof -
  have ne: "BUFFER s \<noteq> []" and l: "Suc 0 < length (BUFFER s)"
    using assms by auto
  show ?thesis
  proof (cases "faults s")
    case Nil
    then show ?thesis
      using ne l by (simp add: write_u8_def transport_defs)
  next
    case (Cons f fs)
    then show ?thesis
      using ne l by (cases f) (simp_all add: write_u8_def transport_defs)
  qed
qed

text \<open>
  C9. Every transport call (\<open>_read_into\<close>, \<open>_write_from\<close>, \<open>_write_u8\<close>), whatever the
  bus does, ends with the session released: the events it adds are one \<open>Select\<close>, transfers
  only, and one \<open>Deselect\<close> last; and when a transfer raises, the call returns that very
  error.
\<close>

theorem session_released_on_every_path:
  assumes "length (BUFFER s) = 8"
  shows "(selected (snd (read_into a buf len s)) = False
          \<and> (\<exists>mid. new_events s (snd (read_into a buf len s)) = [Select] @ mid @ [Deselect]
                   \<and> transfer_only mid)
          \<and> fst (read_into a buf len s) =
              (case first_fault 2 (faults s) of Some e \<Rightarrow> Inl e | None \<Rightarrow> Inr ()))
       \<and> (selected (snd (write_from a buf len s)) = False
          \<and> (\<exists>mid. new_events s (snd (write_from a buf len s)) = [Select] @ mid @ [Deselect]
                   \<and> transfer_only mid)
          \<and> fst (write_from a buf len s) =
              (case first_fault 2 (faults s) of Some e \<Rightarrow> Inl e | None \<Rightarrow> Inr ()))
       \<and> (selected (snd (write_u8 a v s)) = False
          \<and> (\<exists>mid. new_events s (snd (write_u8 a v s)) = [Select] @ mid @ [Deselect]
                   \<and> transfer_only mid)
          \<and> fst (write_u8 a v s) =
              (case first_fault 1 (faults s) of Some e \<Rightarrow> Inl e | None \<Rightarrow> Inr ()))"
proof -
  have ne: "BUFFER s \<noteq> []" and l2: "2 \<le> length (BUFFER s)"
    using assms by auto
  have r: "grows (bind_io (setitem_BUFFER 0 c) (\<lambda>_.
            bind_io (\<lambda>s1. device_write (take 1 (BUFFER s1)) s1) (\<lambda>_.
            device_readinto buf n)))" for c n
    by (intro grows_bind grows_setitem grows_device_write grows_device_readinto)
  have w: "grows (bind_io (setitem_BUFFER 0 c) (\<lambda>_.
            bind_io (\<lambda>s1. device_write (take 1 (BUFFER s1)) s1) (\<lambda>_.
            (\<lambda>s2. device_write (take n (get_buf buf s2)) s2))))" for c n
    by (intro grows_bind grows_setitem grows_device_write)
  have u: "grows (bind_io (setitem_BUFFER 0 c) (\<lambda>_.
        bind_io (setitem_BUFFER 1 d) (\<lambda>_.
        (\<lambda>s1. device_write (take 2 (BUFFER s1)) s1))))" for c d
    by (intro grows_bind grows_setitem grows_device_write)
  have R: "selected (snd (read_into a buf len s)) = False
          \<and> (\<exists>mid. new_events s (snd (read_into a buf len s)) = [Select] @ mid @ [Deselect]
                   \<and> transfer_only mid)"
    unfolding read_into_def Let_def by (rule with_device_session [OF r])
  have W: "selected (snd (write_from a buf len s)) = False
          \<and> (\<exists>mid. new_events s (snd (write_from a buf len s)) = [Select] @ mid @ [Deselect]
                   \<and> transfer_only mid)"
    unfolding write_from_def Let_def by (rule with_device_session [OF w])
  have U: "selected (snd (write_u8 a v s)) = False
          \<and> (\<exists>mid. new_events s (snd (write_u8 a v s)) = [Select] @ mid @ [Deselect]
                   \<and> transfer_only mid)"
    unfolding write_u8_def by (rule with_device_session [OF u])
  from R W U read_into_result [OF ne, of a buf len] write_from_result [OF ne, of a buf len]
    write_u8_result [OF l2, of a v]
  show ?thesis
    by blast
qed

theorem session_released_on_every_path_witness:
  "length (BUFFER faulty_bus) = 8
   \<and> faults faulty_bus = [None, Some (OSError 5)]
   \<and> selected (snd (read_into 0 GlobalBuffer (Some 7) faulty_bus)) = False
   \<and> fst (read_into 0 GlobalBuffer (Some 7) faulty_bus) = Inl (OSError 5)
   \<and> selected (snd (write_from 0 CallerBuffer None faulty_bus)) = False
   \<and> fst (write_from 0 CallerBuffer None faulty_bus) = Inl (OSError 5)
   \<and> selected (snd (write_u8 0 0 faulty_bus)) = False
   \<and> fst (write_u8 0 0 faulty_bus) = Inr ()"
proof -
  have l: "length (BUFFER faulty_bus) = 8"
    and f: "faults faulty_bus = [None, Some (OSError 5)]"
    by (simp_all add: faulty_bus_def power_on_def)
  show ?thesis
    using session_released_on_every_path [OF l, of 0 GlobalBuffer "Some 7" ]
      session_released_on_every_path [OF l, of 0 CallerBuffer None 0] l f
    by (simp add: first_fault_2)
qed

lemma bind_io_snd_pure: "(\<And>x s1. snd (f x s1) = s1) \<Longrightarrow> snd (bind_io m f s) = snd (m s)"
  by (cases "m s"; cases "fst (m s)") (simp_all add: bind_io_def)

lemma getitem_BUFFER_snd: "snd (getitem_BUFFER i s) = s"
  by (simp add: getitem_BUFFER_def)

lemma return_io_snd: "snd (return_io x s) = s"
  by (simp add: return_io_def)

lemma read_u8_state: "snd (read_u8 a s) = snd (read_into a GlobalBuffer (Some 1) s)"
  unfolding read_u8_def
  by (simp add: bind_io_snd_pure getitem_BUFFER_snd return_io_snd)

lemma valid_state: "snd (valid s) = snd (read_into 0x10 GlobalBuffer (Some 1) s)"
  unfolding valid_def read_u8_state [symmetric]
  by (simp add: bind_io_snd_pure return_io_snd)

lemma datetime_getter_state:
  "snd (datetime_getter s) = snd (read_into S_REG GlobalBuffer (Some 7) s)"
  unfolding datetime_getter_def
  by (simp add: bind_io_snd_pure getitem_BUFFER_snd return_io_snd Let_def)

lemma read_into_sent_clear:
  "list_all (\<lambda>b. \<not> bit b 7) (sent (new_events s (snd (read_into a buf len s))))"
  using read_into_outcomes [of a buf len s] by (auto simp add: bit_cmd_read)

text \<open>
  C10. Get-time and get-valid, from every state and whatever the bus does, leave all chip
  registers unchanged, and every byte they transmit (an address byte) has bit 7 clear.
\<close>

theorem reads_leave_registers_unchanged:
  "regs (snd (datetime_getter s)) = regs s
   \<and> regs (snd (valid s)) = regs s
   \<and> list_all (\<lambda>b. \<not> bit b 7) (sent (new_events s (snd (datetime_getter s))))
   \<and> list_all (\<lambda>b. \<not> bit b 7) (sent (new_events s (snd (valid s))))"
  unfolding datetime_getter_state valid_state
  using read_into_outcomes [of S_REG GlobalBuffer "Some 7" s]
    read_into_outcomes [of "0x10" GlobalBuffer "Some 1" s]
  by (simp add: read_into_sent_clear)

lemma read_into_events_ok:
  assumes "faults s = []" and "BUFFER s \<noteq> []"
  shows "\<exists>bs. new_events s (snd (read_into a buf len s)) =
           [Select, Tx [byte (a AND 0x7F)], Rx bs, Deselect]"
proof -
  have t: "take (Suc 0) ((BUFFER s)[0 := c]) = [c]" for c
    using assms(2) by (cases "BUFFER s") simp_all
  show ?thesis
    using assms by (simp add: read_into_def transport_defs new_events_def t)
qed

lemma write_from_events_ok:
  assumes "faults s = []" and "BUFFER s \<noteq> []"
  shows "\<exists>bs. new_events s (snd (write_from a buf len s)) =
           [Select, Tx [byte ((a OR 0x80) AND 0xFF)], Tx bs, Deselect]"
proof -
  have t: "take (Suc 0) ((BUFFER s)[0 := c]) = [c]" for c
    using assms(2) by (cases "BUFFER s") simp_all
  show ?thesis
    using assms by (simp add: write_from_def transport_defs new_events_def t)
qed

lemma byte_or_80: "byte ((a OR 0x80) AND 0xFF) = byte (a OR 0x80)"
  unfolding byte_def nFF
  by (rule bit_eqI) (auto simp add: bit_word_of_int_iff bit_and_iff bit_mask_iff)

lemma uint_byte_or_80: "0 \<le> a \<Longrightarrow> a \<le> 255 \<Longrightarrow> uint (byte (a OR 0x80)) = a OR 0x80"
proof -
  assume a: "0 \<le> a" "a \<le> 255"
  have "take_bit 8 a = a"
    using a by (simp add: take_bit_int_eq_self)
  then show ?thesis
    by (simp add: uint_byte take_bit_or)
qed

lemma uint_byte_and_7F: "uint (byte (a AND 0x7F)) = a AND 0x7F"
  unfolding uint_byte n7F
  by (rule bit_eqI) (auto simp add: bit_take_bit_iff bit_and_iff bit_mask_iff)

text \<open>
  C5. Direction bit: for every address byte \<open>a\<close>, the first byte a register write
  (\<open>_write_u8\<close>, \<open>_write_from\<close>) transmits is \<open>a OR 0x80\<close>, and the first byte a register
  read transmits is \<open>a AND 0x7F\<close>, whatever bit 7 of \<open>a\<close> is.
\<close>

theorem direction_bit_framing:
  assumes "0 \<le> a" and "a \<le> 255" and "faults s = []" and "length (BUFFER s) = 8"
  shows "take 1 (sent (new_events s (snd (write_u8 a v s)))) = [byte (a OR 0x80)]
       \<and> take 1 (sent (new_events s (snd (write_from a buf len s)))) = [byte (a OR 0x80)]
       \<and> take 1 (sent (new_events s (snd (read_into a buf len s)))) = [byte (a AND 0x7F)]
       \<and> uint (byte (a OR 0x80)) = a OR 0x80
       \<and> uint (byte (a AND 0x7F)) = a AND 0x7F"
proof -
  have ne: "BUFFER s \<noteq> []" and l2: "2 \<le> length (BUFFER s)"
    using assms(4) by auto
  have "take 1 (sent (new_events s (snd (write_u8 a v s)))) = [byte (a OR 0x80)]"
    by (simp add: write_u8_ok [OF assms(3) l2] new_events_def byte_or_80)
  moreover have "take 1 (sent (new_events s (snd (write_from a buf len s)))) = [byte (a OR 0x80)]"
    using write_from_events_ok [OF assms(3) ne, of a buf len] by (auto simp add: byte_or_80)
  moreover have "take 1 (sent (new_events s (snd (read_into a buf len s)))) = [byte (a AND 0x7F)]"
    using read_into_events_ok [OF assms(3) ne, of a buf len] by auto
  ultimately show ?thesis
    using uint_byte_or_80 [OF assms(1,2)] uint_byte_and_7F [of a] by simp
qed

theorem direction_bit_framing_witness:
  "(0::int) \<le> 0x05 \<and> (0x05::int) \<le> 255 \<and> (0::int) \<le> 0x85 \<and> (0x85::int) \<le> 255
   \<and> faults power_on = [] \<and> length (BUFFER power_on) = 8
   \<and> take 1 (sent (new_events power_on (snd (write_u8 0x05 0 power_on)))) = [0x85]
   \<and> take 1 (sent (new_events power_on (snd (write_from 0x05 CallerBuffer None power_on)))) = [0x85]
   \<and> take 1 (sent (new_events power_on (snd (read_into 0x05 GlobalBuffer (Some 1) power_on)))) = [0x05]
   \<and> take 1 (sent (new_events power_on (snd (read_into 0x85 GlobalBuffer (Some 1) power_on)))) = [0x05]"
proof -
  have f: "faults power_on = []" and l: "length (BUFFER power_on) = 8"
    by (simp_all add: power_on_def)
  show ?thesis
    using direction_bit_framing [OF _ _ f l, of "0x05" 0 CallerBuffer None]
      direction_bit_framing [OF _ _ f l, of "0x05" 0 GlobalBuffer "Some 1"]
      direction_bit_framing [OF _ _ f l, of "0x85" 0 GlobalBuffer "Some 1"] f l
    by (simp add: byte_def)
qed

end
